theory Spec2Isabelle
  imports Main "HOL-Library.AList"
begin

section \<open>TailFS remote file system: model of \<^verbatim>\<open>tailfs/tailfsimpl/remote_impl.go\<close>\<close>

text \<open>
  The Go file is embedded function by function. What the file takes from other packages
  (the Go standard library, \<^verbatim>\<open>tailfs\<close>, \<^verbatim>\<open>shared\<close>, \<^verbatim>\<open>safesocket\<close>, the operating system) is
  not part of it and enters the model as fields of two records of parameters: \<open>sys\<close>
  for the file-system side and \<open>proc\<close> for what one call of \<^verbatim>\<open>userServer.run\<close> meets.
  Go errors are values: a callee's error is its message (a \<open>string\<close>), the errors this
  file builds are datatypes. A Go map is an association list with distinct keys, the
  list order being the order in which \<^verbatim>\<open>range\<close> visits the entries (Go leaves it open);
  lookup is \<open>map_of\<close>. Effects on the outside world (goroutines started, locks, processes,
  connection attempts, log lines) are returned as lists of events, in order.
\<close>

subsection \<open>Data\<close>

text \<open>\<^verbatim>\<open>tailfs.Share\<close>: the fields this file reads.\<close>

record Share =
  Name :: string
  Path :: string
  As :: string

text \<open>\<^verbatim>\<open>exec.Cmd\<close> as built by \<^verbatim>\<open>exec.Command(name, args...)\<close>.\<close>

record command =
  cmd_name :: string
  cmd_args :: "string list"

text \<open>
  \<^verbatim>\<open>userServer\<close>. The field \<open>cmd\<close> is \<open>None\<close> for Go's nil. The lock \<^verbatim>\<open>mu\<close> and the log
  function carry no data.
\<close>

record userServer =
  shares :: "Share list"
  username :: string
  executable :: string
  cmd :: "command option"
  addr :: string
  closed :: bool

text \<open>
  \<^verbatim>\<open>compositedav.Child\<close> as \<^verbatim>\<open>buildChild\<close> fills it. Its transport's \<^verbatim>\<open>Dial\<close> closure is the
  function \<open>dial\<close> below: it reads the file system's fields when it is called, not when
  the child is built.
\<close>

record Child =
  child_Name :: string
  BaseURL :: string

text \<open>
  \<^verbatim>\<open>FileSystemForRemote\<close>. The map \<open>userServers\<close> holds pointers in Go; here an entry is
  the state of the pointed-to \<^verbatim>\<open>userServer\<close> at the moment the map is read.
\<close>

record FileSystemForRemote =
  fileServerAddr :: string
  fs_shares :: "(string \<times> Share) list"
  children :: "(string \<times> Child) list"
  userServers :: "(string \<times> userServer) list"

datatype Permission = PermissionNone | PermissionReadOnly | PermissionReadWrite

text \<open>\<^verbatim>\<open>tailfs.Permissions\<close>, through its only method used here, \<^verbatim>\<open>For\<close>.\<close>

type_synonym Permissions = "string \<Rightarrow> Permission"

record request =
  Method :: string
  URL_Path :: string

text \<open>
  What lies outside the file on the file-system side. A result \<open>Inl msg\<close> is a non-nil
  Go error with that message.
\<close>

record sys =
  AllowShareAs :: bool
  os_Executable :: "string + string"
  SplitHostPort :: "string \<Rightarrow> string + (string \<times> string)"
  hex_DecodeString :: "string \<Rightarrow> string + string"
  hex_EncodeToString :: "string \<Rightarrow> string"
  PathEscape :: "string \<Rightarrow> string"
  ParseAddrPort_ok :: "string \<Rightarrow> bool"
  net_Dial_tcp :: "string \<Rightarrow> string + nat"
  safesocket_Connect :: "string \<Rightarrow> string + nat"
  CleanAndSplit :: "string \<Rightarrow> string list"
  Process_Kill_err :: "command \<Rightarrow> string option"

subsection \<open>The dialer of a child's transport (\<^verbatim>\<open>buildChild\<close>)\<close>

datatype dial_error =
    UnableToParseShareAddress string string
  | UnableToDecodeShareName string string
  | UnknownShare string
  | UnableToDetermineAddress string
  | ConnectFailed string

text \<open>A connection attempt made by a dial, with its target.\<close>

datatype attempt = Dial_tcp string | Connect_safesocket string

definition connect_result :: "string + nat \<Rightarrow> dial_error + nat" where
  "connect_result r = (case r of Inl msg \<Rightarrow> Inl (ConnectFailed msg) | Inr c \<Rightarrow> Inr c)"

text \<open>
  The local variable \<^verbatim>\<open>addr\<close> of the \<^verbatim>\<open>Dial\<close> closure, lines 143 to 153, for the share
  found: the empty string unless one of the branches assigns it.
\<close>

definition dial_addr :: "sys \<Rightarrow> FileSystemForRemote \<Rightarrow> Share \<Rightarrow> string" where
  "dial_addr e s share =
     (if \<not> AllowShareAs e then fileServerAddr s
      else (case map_of (userServers s) (As share) of
              Some userServer \<Rightarrow> addr userServer
            | None \<Rightarrow> []))"

text \<open>
  The \<^verbatim>\<open>Dial\<close> closure, lines 120 to 166. The result is the pair of what the closure
  returns (a connection, here a number, or an error) and the connection attempts it made.
\<close>

definition dial :: "sys \<Rightarrow> FileSystemForRemote \<Rightarrow> string \<Rightarrow> (dial_error + nat) \<times> attempt list" where
  "dial e s shareAddr =
    (case SplitHostPort e shareAddr of
       Inl err \<Rightarrow> (Inl (UnableToParseShareAddress shareAddr err), [])
     | Inr (shareNameHex, port) \<Rightarrow>
        (case hex_DecodeString e shareNameHex of
           Inl err \<Rightarrow> (Inl (UnableToDecodeShareName shareNameHex err), [])
         | Inr shareName \<Rightarrow>
            (case map_of (fs_shares s) shareName of
               None \<Rightarrow> (Inl (UnknownShare shareName), [])
             | Some share \<Rightarrow>
                (let a = dial_addr e s share
                 in if a = [] then (Inl (UnableToDetermineAddress shareName), [])
                    else if ParseAddrPort_ok e a
                      then (connect_result (net_Dial_tcp e a), [Dial_tcp a])
                      else (connect_result (safesocket_Connect e a), [Connect_safesocket a])))))"

definition buildChild :: "sys \<Rightarrow> Share \<Rightarrow> Child" where
  "buildChild e share =
     \<lparr>child_Name = Name share,
      BaseURL = ''http://'' @ hex_EncodeToString e (Name share) @ ''/'' @ PathEscape e (Name share)\<rparr>"

subsection \<open>Serving a request (\<^verbatim>\<open>ServeHTTPWithPerms\<close>)\<close>

text \<open>The table \<^verbatim>\<open>writeMethods\<close>; a missing key reads as false.\<close>

definition writeMethods :: "string \<Rightarrow> bool" where
  "writeMethods m \<longleftrightarrow>
     m \<in> {''PUT'', ''POST'', ''COPY'', ''LOCK'', ''UNLOCK'', ''MKCOL'', ''MOVE'', ''PROPPATCH''}"

text \<open>
  What a call of \<^verbatim>\<open>ServeHTTPWithPerms\<close> does to the response writer: it writes an error
  itself with \<^verbatim>\<open>http.Error(w, text, status)\<close> and returns, or it hands writer and request
  to a \<^verbatim>\<open>compositedav.Handler\<close> set up with a list of children, which then writes the
  response, dialing children as it needs. \<^verbatim>\<open>shared.CleanAndSplit(path)[0]\<close> panics on an
  empty slice.
\<close>

datatype served =
    http_Error string nat
  | Handler_ServeHTTP "Child list" request
  | Panic_index_out_of_range

definition visible_children :: "Permissions \<Rightarrow> (string \<times> Child) list \<Rightarrow> Child list" where
  "visible_children permissions childrenMap =
     map snd (filter (\<lambda>(name, child). permissions name \<noteq> PermissionNone) childrenMap)"

definition ServeHTTPWithPerms ::
    "sys \<Rightarrow> FileSystemForRemote \<Rightarrow> Permissions \<Rightarrow> request \<Rightarrow> served" where
  "ServeHTTPWithPerms e s permissions r =
    (let dispatch = Handler_ServeHTTP (visible_children permissions (children s)) r
     in if writeMethods (Method r)
        then (case CleanAndSplit e (URL_Path r) of
                [] \<Rightarrow> Panic_index_out_of_range
              | share # rest \<Rightarrow>
                 (case permissions share of
                    PermissionNone \<Rightarrow> http_Error ''not found'' 404
                  | PermissionReadOnly \<Rightarrow> http_Error ''permission denied'' 403
                  | PermissionReadWrite \<Rightarrow> dispatch))
        else dispatch)"

subsection \<open>Events\<close>

datatype log_line =
    CantFindExecutable string
  | StartingAsUser string
  | StartingAsOurselves
  | ErrorClosingUserServer string

text \<open>
  The effects of this file on the outside, in the order in which they happen.
  \<open>Run_probe\<close> is the command that \<^verbatim>\<open>canSudo\<close> runs, \<open>cmd_Start\<close> a successful \<^verbatim>\<open>cmd.Start()\<close>
  of the file server, \<open>Go_runLoop\<close> the statement \<^verbatim>\<open>go p.runLoop()\<close> for the user server of
  an owner, \<open>mu_Lock\<close> and \<open>mu_Unlock\<close> the write lock of the file system, the \<open>Store\<close> events
  the assignments to its fields, \<open>Close_userServer\<close> a call of \<^verbatim>\<open>userServer.Close\<close> and
  \<open>CloseIdleConnections\<close> the call on a child, both named by their map key.
\<close>

datatype event =
    Logf log_line
  | Run_probe command
  | cmd_Start command
  | Go_runLoop string
  | mu_Lock
  | Store_shares
  | Store_children
  | Store_userServers
  | mu_Unlock
  | Close_userServer string
  | Process_Kill command
  | CloseIdleConnections string

subsection \<open>One run of a user server (\<^verbatim>\<open>userServer.run\<close>)\<close>

text \<open>\<^verbatim>\<open>user.User\<close>: the fields read by \<^verbatim>\<open>assertNotRoot\<close>.\<close>

record os_user =
  Uid :: string
  user_Name :: string

text \<open>
  The standard output of a child as the pipe delivers it: the bytes written, and how
  the stream goes on after them. \<open>End_of_file\<close>: the child closed the stream or exited;
  \<open>Read_fails\<close>: a read returns an error other than \<^verbatim>\<open>io.EOF\<close>; \<open>Stays_open\<close>: the child
  lives on and writes nothing more.
\<close>

datatype stream_end = End_of_file | Read_fails string | Stays_open

record pipe_stream =
  bytes :: string
  stream_end :: stream_end

text \<open>The result of \<^verbatim>\<open>cmd.Wait()\<close>: it returns when the child has exited.\<close>

datatype wait = Never_exits | Exits "string option"

text \<open>What one call of \<^verbatim>\<open>run\<close> meets outside the file.\<close>

record proc =
  canSudo_ok :: bool
  user_Current :: "string + os_user"
  StdoutPipe_err :: "string option"
  StderrPipe_err :: "string option"
  Start_err :: "string option"
  child_stdout :: pipe_stream
  Wait_result :: wait

datatype run_error =
    FailedToFindCurrentUser string
  | IsRoot string
  | StdoutPipeError string
  | StderrPipeError string
  | StartError string
  | ReadAddrError string
  | WaitError string

text \<open>A call either returns Go's \<^verbatim>\<open>error\<close> (\<open>None\<close> is nil) or never returns.\<close>

datatype ret = Blocks | Returns "run_error option"

text \<open>
  The first \<^verbatim>\<open>Scan()\<close> of a \<^verbatim>\<open>bufio.Scanner\<close> with the default line splitter, followed by
  \<^verbatim>\<open>Err()\<close> and \<^verbatim>\<open>Text()\<close>, as the package documents them: \<^verbatim>\<open>Scan\<close> returns true with the
  next line as token, its end-of-line marker stripped (a last line without newline
  counts); it returns false when there are no more tokens, either by reaching the end
  of the input or an error; \<^verbatim>\<open>Err\<close> returns the first error met, except that for \<^verbatim>\<open>io.EOF\<close>
  it returns nil; \<^verbatim>\<open>Text\<close> is the most recent token, empty when there was none. The
  scanner's buffer grows to \<^verbatim>\<open>bufio.MaxScanTokenSize\<close>, 64 KiB: when that many bytes have
  come without a newline among them, \<^verbatim>\<open>Scan\<close> returns false and \<^verbatim>\<open>Err\<close> is \<^verbatim>\<open>bufio.ErrTooLong\<close>.
  \<open>None\<close>: \<^verbatim>\<open>Scan\<close> waits for input that never comes.
\<close>

record scanned =
  Scan_true :: bool
  Err :: "string option"
  Text :: string

definition MaxScanTokenSize :: nat where
  "MaxScanTokenSize = 65536"

definition dropCR :: "string \<Rightarrow> string" where
  "dropCR l = (if l \<noteq> [] \<and> last l = CHR 0x0D then butlast l else l)"

definition first_Scan :: "pipe_stream \<Rightarrow> scanned option" where
  "first_Scan p =
     (let line = takeWhile (\<lambda>c. c \<noteq> CHR 0x0A) (bytes p)
      in if MaxScanTokenSize \<le> length line
         then Some \<lparr>Scan_true = False, Err = Some ''bufio.Scanner: token too long'', Text = []\<rparr>
         else if CHR 0x0A \<in> set (bytes p)
         then Some \<lparr>Scan_true = True, Err = None, Text = dropCR line\<rparr>
         else (case stream_end p of
                 Stays_open \<Rightarrow> None
               | End_of_file \<Rightarrow>
                   Some \<lparr>Scan_true = (bytes p \<noteq> []), Err = None, Text = dropCR (bytes p)\<rparr>
               | Read_fails msg \<Rightarrow>
                   Some \<lparr>Scan_true = (bytes p \<noteq> []), Err = Some msg, Text = dropCR (bytes p)\<rparr>))"

text \<open>
  \<^verbatim>\<open>strings.TrimSpace\<close> removes the leading and the trailing white space, as Unicode
  defines it, of a string in UTF-8. The white space characters are the six of ASCII and
  U+0085, U+00A0, U+1680, U+2000 to U+200A, U+2028, U+2029, U+202F, U+205F and U+3000;
  \<open>white_space\<close> lists their encodings. Each encoding starts with a byte that is no
  continuation byte, so matching the bytes at either end of the string finds the same
  characters as decoding it does.
\<close>

definition white_space :: "string list" where
  "white_space =
     [[CHR 0x09], [CHR 0x0A], [CHR 0x0B], [CHR 0x0C], [CHR 0x0D], [CHR 0x20],
      [CHR 0xC2, CHR 0x85], [CHR 0xC2, CHR 0xA0], [CHR 0xE1, CHR 0x9A, CHR 0x80],
      [CHR 0xE2, CHR 0x80, CHR 0x80], [CHR 0xE2, CHR 0x80, CHR 0x81],
      [CHR 0xE2, CHR 0x80, CHR 0x82], [CHR 0xE2, CHR 0x80, CHR 0x83],
      [CHR 0xE2, CHR 0x80, CHR 0x84], [CHR 0xE2, CHR 0x80, CHR 0x85],
      [CHR 0xE2, CHR 0x80, CHR 0x86], [CHR 0xE2, CHR 0x80, CHR 0x87],
      [CHR 0xE2, CHR 0x80, CHR 0x88], [CHR 0xE2, CHR 0x80, CHR 0x89],
      [CHR 0xE2, CHR 0x80, CHR 0x8A], [CHR 0xE2, CHR 0x80, CHR 0xA8],
      [CHR 0xE2, CHR 0x80, CHR 0xA9], [CHR 0xE2, CHR 0x80, CHR 0xAF],
      [CHR 0xE2, CHR 0x81, CHR 0x9F], [CHR 0xE3, CHR 0x80, CHR 0x80]]"

text \<open>The string without the words of \<open>ws\<close> that it starts with, one after the other.\<close>

function strip_leading :: "string list \<Rightarrow> string \<Rightarrow> string" where
  "strip_leading ws s =
     (case find (\<lambda>w. w \<noteq> [] \<and> take (length w) s = w) ws of
        None \<Rightarrow> s
      | Some w \<Rightarrow> strip_leading ws (drop (length w) s))"
  by pat_completeness auto
termination
proof (relation "measure (\<lambda>(ws, s). length s)")
  show "wf (measure (\<lambda>(ws, s). length s))" by simp
next
  fix ws :: "string list" and s w :: string
  assume "find (\<lambda>w. w \<noteq> [] \<and> take (length w) s = w) ws = Some w"
  then have w: "w \<noteq> []" and t: "take (length w) s = w"
    by (auto simp: find_Some_iff)
  from t have "length (take (length w) s) = length w" by simp
  then have "length w \<le> length s" by simp
  with w show "((ws, drop (length w) s), (ws, s)) \<in> measure (\<lambda>(ws, s). length s)"
    by (cases w) auto
qed

declare strip_leading.simps [simp del]

definition TrimSpace :: "string \<Rightarrow> string" where
  "TrimSpace s = rev (strip_leading (map rev white_space) (rev (strip_leading white_space s)))"

definition canSudo :: "proc \<Rightarrow> userServer \<Rightarrow> bool \<times> event list" where
  "canSudo p s =
     (canSudo_ok p,
      [Run_probe \<lparr>cmd_name = ''sudo'',
                  cmd_args = [''-n'', ''-u'', username s, executable s, ''-h'']\<rparr>])"

definition assertNotRoot :: "proc \<Rightarrow> run_error option" where
  "assertNotRoot p =
     (case user_Current p of
        Inl err \<Rightarrow> Some (FailedToFindCurrentUser err)
      | Inr u \<Rightarrow> if Uid u = ''0'' then Some (IsRoot (user_Name u)) else None)"

text \<open>The local variable \<^verbatim>\<open>args\<close> of \<^verbatim>\<open>run\<close>, lines 301 to 304.\<close>

definition run_args :: "userServer \<Rightarrow> string list" where
  "run_args s = ''serve-tailfs'' # concat (map (\<lambda>sh. [Name sh, Path sh]) (shares s))"

text \<open>
  Lines 322 to 363 of \<^verbatim>\<open>run\<close>, from the pipes on, for the command chosen before; \<open>evs\<close>
  are the events so far. The two goroutines that copy the remaining output to the log
  are left out.
\<close>

definition run_cmd ::
    "proc \<Rightarrow> userServer \<Rightarrow> event list \<Rightarrow> command \<Rightarrow> userServer \<times> event list \<times> ret" where
  "run_cmd p s evs c =
     (case StdoutPipe_err p of
        Some err \<Rightarrow> (s, evs, Returns (Some (StdoutPipeError err)))
      | None \<Rightarrow>
     (case StderrPipe_err p of
        Some err \<Rightarrow> (s, evs, Returns (Some (StderrPipeError err)))
      | None \<Rightarrow>
     (case Start_err p of
        Some err \<Rightarrow> (s, evs, Returns (Some (StartError err)))
      | None \<Rightarrow>
     (let s1 = s\<lparr>cmd := Some c\<rparr>; evs1 = evs @ [cmd_Start c]
      in case first_Scan (child_stdout p) of
           None \<Rightarrow> (s1, evs1, Blocks)
         | Some sc \<Rightarrow>
            (case Err sc of
               Some err \<Rightarrow> (s1, evs1, Returns (Some (ReadAddrError err)))
             | None \<Rightarrow>
                (s1\<lparr>addr := TrimSpace (Text sc)\<rparr>, evs1,
                 (case Wait_result p of
                    Never_exits \<Rightarrow> Blocks
                  | Exits w \<Rightarrow> Returns (map_option WaitError w))))))))"

definition run :: "proc \<Rightarrow> userServer \<Rightarrow> userServer \<times> event list \<times> ret" where
  "run p s =
     (let args = run_args s; (ok, probe) = canSudo p s
      in if ok
         then run_cmd p s (probe @ [Logf (StartingAsUser (username s))])
                \<lparr>cmd_name = ''sudo'',
                 cmd_args = [''-n'', ''-u'', username s, executable s] @ args\<rparr>
         else (case assertNotRoot p of
                 Some err \<Rightarrow> (s, probe, Returns (Some err))
               | None \<Rightarrow>
                  run_cmd p s (probe @ [Logf StartingAsOurselves])
                    \<lparr>cmd_name = executable s, cmd_args = args\<rparr>))"

subsection \<open>The retry loop (\<^verbatim>\<open>userServer.runLoop\<close>)\<close>

text \<open>
  \<^verbatim>\<open>time.Duration\<close> is a signed 64-bit count of nanoseconds, here an \<open>int\<close> with the
  wrap-around of the multiplication written out. A \<^verbatim>\<open>time.Time\<close> is the number of
  nanoseconds since Go's zero time, which is what \<^verbatim>\<open>timeOfLastFailure\<close> starts as.
\<close>

definition Millisecond :: int where
  "Millisecond = 1000000"

definition Second :: int where
  "Second = 1000 * Millisecond"

definition maxSleepTime :: int where
  "maxSleepTime = 30 * Second"

definition maxDuration :: int where
  "maxDuration = 2 ^ 63 - 1"

definition minDuration :: int where
  "minDuration = - (2 ^ 63)"

definition wrap64 :: "int \<Rightarrow> int" where
  "wrap64 x = (x + 2 ^ 63) mod 2 ^ 64 - 2 ^ 63"

text \<open>\<^verbatim>\<open>t.Sub(u)\<close>: the difference, or the largest or smallest duration when it does not fit.\<close>

definition time_Sub :: "int \<Rightarrow> int \<Rightarrow> int" where
  "time_Sub t u =
     (let d = t - u
      in if d > maxDuration then maxDuration else if d < minDuration then minDuration else d)"

text \<open>
  \<^verbatim>\<open>time.Duration(math.Pow(2, consecutiveFailures))\<close>. The counter is a \<^verbatim>\<open>float64\<close> that
  only ever holds a whole number, here a \<open>nat\<close>. Below \<open>2 ^ 63\<close> the power is exact and
  so is its conversion; from there on Go leaves the converted value to the implementation,
  and \<open>oor\<close> is that value.
\<close>

definition Duration_of_Pow2 :: "int \<Rightarrow> nat \<Rightarrow> int" where
  "Duration_of_Pow2 oor n = (if n < 63 then 2 ^ n else oor)"

record loop_vars =
  consecutiveFailures :: nat
  timeOfLastFailure :: int

text \<open>
  Lines 279 to 290: from the reading \<open>now\<close> of the clock after \<^verbatim>\<open>run\<close> has returned, the
  time to sleep and the new values of the loop's variables.
\<close>

definition runLoop_body :: "int \<Rightarrow> loop_vars \<Rightarrow> int \<Rightarrow> int \<times> loop_vars" where
  "runLoop_body oor v now =
     (let timeSinceLastFailure = time_Sub now (timeOfLastFailure v);
          cf = (if timeSinceLastFailure < maxSleepTime then consecutiveFailures v + 1 else 1);
          sleepTime = wrap64 (Duration_of_Pow2 oor cf * Millisecond)
      in (if sleepTime > maxSleepTime then maxSleepTime else sleepTime,
          \<lparr>consecutiveFailures = cf, timeOfLastFailure = now\<rparr>))"

text \<open>
  One turn of the loop as seen from outside: what \<^verbatim>\<open>run\<close> meets, the clock when it
  returns, and whether another goroutine calls \<^verbatim>\<open>Close\<close> before the next turn.
\<close>

record turn =
  turn_proc :: proc
  turn_now :: int
  turn_Close :: bool

text \<open>
  The loop runs until it reads \<^verbatim>\<open>closed\<close> as true. The list of turns is what the
  outside supplies; when it is used up, or when \<^verbatim>\<open>run\<close> never returns, the loop has not
  returned. The result is whether \<^verbatim>\<open>runLoop\<close> returned, the user server, and the
  durations passed to \<^verbatim>\<open>time.Sleep\<close> in order.
\<close>

fun runLoop_from :: "int \<Rightarrow> loop_vars \<Rightarrow> userServer \<Rightarrow> turn list \<Rightarrow> bool \<times> userServer \<times> int list" where
  "runLoop_from oor v s [] = (closed s, s, [])"
| "runLoop_from oor v s (t # ts) =
     (if closed s then (True, s, [])
      else (case run (turn_proc t) s of
              (s1, evs, Blocks) \<Rightarrow> (False, s1, [])
            | (s1, evs, Returns err) \<Rightarrow>
               (let (sleepTime, v') = runLoop_body oor v (turn_now t);
                    s2 = (if turn_Close t then s1\<lparr>closed := True\<rparr> else s1);
                    (returned, s3, sleeps) = runLoop_from oor v' s2 ts
                in (returned, s3, sleepTime # sleeps))))"

definition runLoop :: "int \<Rightarrow> userServer \<Rightarrow> turn list \<Rightarrow> bool \<times> userServer \<times> int list" where
  "runLoop oor s ts = runLoop_from oor \<lparr>consecutiveFailures = 0, timeOfLastFailure = 0\<rparr> s ts"

subsection \<open>Installing shares and closing (\<^verbatim>\<open>SetShares\<close>, \<^verbatim>\<open>Close\<close>)\<close>

definition userServer_Close :: "sys \<Rightarrow> userServer \<Rightarrow> userServer \<times> event list \<times> string option" where
  "userServer_Close e s =
     (case cmd s of
        Some c \<Rightarrow> (s\<lparr>closed := True\<rparr>, [Process_Kill c], Process_Kill_err e c)
      | None \<Rightarrow> (s\<lparr>closed := True\<rparr>, [], None))"

definition stopUserServers :: "sys \<Rightarrow> (string \<times> userServer) list \<Rightarrow> event list" where
  "stopUserServers e us =
     concat (map (\<lambda>(key, server).
        (case userServer_Close e server of
           (server', evs, err) \<Rightarrow>
             Close_userServer key # evs @
             (case err of Some msg \<Rightarrow> [Logf (ErrorClosingUserServer msg)] | None \<Rightarrow> []))) us)"

definition closeChildren :: "(string \<times> Child) list \<Rightarrow> event list" where
  "closeChildren cs = map (\<lambda>(key, child). CloseIdleConnections key) cs"

text \<open>The body of the loop of lines 79 to 90, for one share.\<close>

definition SetShares_group ::
    "string \<Rightarrow> Share \<Rightarrow> (string \<times> userServer) list \<Rightarrow> (string \<times> userServer) list" where
  "SetShares_group exe share us =
     (let (p, us1) =
        (case map_of us (As share) of
           Some p \<Rightarrow> (p, us)
         | None \<Rightarrow>
            (let p = \<lparr>shares = [], username = As share, executable = exe,
                      cmd = None, addr = [], closed = False\<rparr>
             in (p, AList.update (As share) p us)))
      in AList.update (As share) (p\<lparr>shares := shares p @ [share]\<rparr>) us1)"

text \<open>
  \<^verbatim>\<open>SetShares\<close>. The argument is the map of shares in the order in which the loops visit
  it, taken to be the same for both loops; the map of children depends on it only when
  two entries carry the same \<open>Name\<close>. The result is the file system after the call and the
  events of the call.
\<close>

definition SetShares ::
    "sys \<Rightarrow> FileSystemForRemote \<Rightarrow> (string \<times> Share) list \<Rightarrow> FileSystemForRemote \<times> event list" where
  "SetShares e s sharesMap =
     (case (if AllowShareAs e
            then (case os_Executable e of
                    Inl err \<Rightarrow> Inl err
                  | Inr exe \<Rightarrow> Inr (fold (SetShares_group exe) (map snd sharesMap) []))
            else Inr []) of
        Inl err \<Rightarrow> (s, [Logf (CantFindExecutable err)])
      | Inr us \<Rightarrow>
         (let cs = fold (\<lambda>share m. AList.update (Name share) (buildChild e share) m)
                        (map snd sharesMap) [];
              oldUserServers = userServers s;
              oldChildren = children s
          in (s\<lparr>fs_shares := sharesMap, children := cs, userServers := us\<rparr>,
              map (\<lambda>(key, p). Go_runLoop key) us
              @ [mu_Lock, Store_shares, Store_children, Store_userServers, mu_Unlock]
              @ stopUserServers e oldUserServers
              @ closeChildren oldChildren)))"

text \<open>\<^verbatim>\<open>Close\<close> of the file system; it always returns nil.\<close>

definition Close :: "sys \<Rightarrow> FileSystemForRemote \<Rightarrow> FileSystemForRemote \<times> event list" where
  "Close e s =
     (let us = userServers s; cs = children s
      in (s\<lparr>userServers := [], children := []\<rparr>,
          [mu_Lock, Store_userServers, Store_children, mu_Unlock]
          @ stopUserServers e us
          @ closeChildren cs))"

subsection \<open>Notions used to state the properties\<close>

text \<open>The delay the loop computes after \<open>k\<close> failures in a row, while nothing overflows.\<close>

definition backoff_delay :: "nat \<Rightarrow> int" where
  "backoff_delay k = min (2 ^ k * Millisecond) maxSleepTime"

text \<open>The cap of lines 288 to 290.\<close>

definition capped :: "int \<Rightarrow> int" where
  "capped sleepTime = (if sleepTime > maxSleepTime then maxSleepTime else sleepTime)"

text \<open>A call of \<^verbatim>\<open>run\<close> that meets \<open>p\<close> returns, whatever the user server.\<close>

definition run_returns :: "proc \<Rightarrow> bool" where
  "run_returns p \<longleftrightarrow> (\<forall>s. snd (snd (run p s)) \<noteq> Blocks)"

text \<open>
  Every turn's clock reading is less than \<open>maxSleepTime\<close> after the one before it,
  the first one after \<open>prev\<close>.
\<close>

fun within_ceiling :: "int \<Rightarrow> turn list \<Rightarrow> bool" where
  "within_ceiling prev [] = True"
| "within_ceiling prev (t # ts) =
     (time_Sub (turn_now t) prev < maxSleepTime \<and> within_ceiling (turn_now t) ts)"

text \<open>The events that tear a generation down.\<close>

fun is_teardown :: "event \<Rightarrow> bool" where
  "is_teardown (Close_userServer k) = True"
| "is_teardown (Process_Kill c) = True"
| "is_teardown (CloseIdleConnections k) = True"
| "is_teardown x = False"

text \<open>The user server that \<^verbatim>\<open>SetShares\<close> creates for an owner, before any share is added.\<close>

definition new_userServer :: "string \<Rightarrow> string \<Rightarrow> userServer" where
  "new_userServer exe u =
     \<lparr>shares = [], username = u, executable = exe, cmd = None, addr = [], closed = False\<rparr>"

text \<open>The shares of an owner, in the order of the list.\<close>

definition owned_by :: "string \<Rightarrow> Share list \<Rightarrow> Share list" where
  "owned_by u shs = filter (\<lambda>sh. As sh = u) shs"

text \<open>
  The map \<open>us\<close> holds one user server for each owner of a share in \<open>shs\<close> and no other,
  each with the shares of its owner.
\<close>

definition grouped :: "string \<Rightarrow> Share list \<Rightarrow> (string \<times> userServer) list \<Rightarrow> bool" where
  "grouped exe shs us \<longleftrightarrow>
     distinct (map fst us)
     \<and> (\<forall>u. map_of us u =
           (if owned_by u shs = [] then None
            else Some ((new_userServer exe u)\<lparr>shares := owned_by u shs\<rparr>)))"

subsection \<open>Inputs for the examples\<close>

definition example_user :: os_user where
  "example_user = \<lparr>Uid = ''0'', user_Name = ''root''\<rparr>"

text \<open>A super-user without \<^verbatim>\<open>sudo\<close>; the child, if started, would print its address.\<close>

definition example_proc :: proc where
  "example_proc =
     \<lparr>canSudo_ok = False, user_Current = Inr example_user,
      StdoutPipe_err = None, StderrPipe_err = None, Start_err = None,
      child_stdout = \<lparr>bytes = ''127.0.0.1:8080'' @ [CHR 0x0A], stream_end = Stays_open\<rparr>,
      Wait_result = Never_exits\<rparr>"

text \<open>\<^verbatim>\<open>sudo\<close> works, the child starts, writes nothing and exits with status 1.\<close>

definition silent_proc :: proc where
  "silent_proc =
     \<lparr>canSudo_ok = True, user_Current = Inr example_user,
      StdoutPipe_err = None, StderrPipe_err = None, Start_err = None,
      child_stdout = \<lparr>bytes = [], stream_end = End_of_file\<rparr>,
      Wait_result = Exits (Some ''exit status 1'')\<rparr>"

text \<open>\<^verbatim>\<open>sudo\<close> works, but the file server cannot be started.\<close>

definition failing_proc :: proc where
  "failing_proc =
     \<lparr>canSudo_ok = True, user_Current = Inr example_user,
      StdoutPipe_err = None, StderrPipe_err = None, Start_err = Some ''exec: not found'',
      child_stdout = \<lparr>bytes = [], stream_end = End_of_file\<rparr>,
      Wait_result = Exits None\<rparr>"

definition share_A :: Share where
  "share_A = \<lparr>Name = ''A'', Path = ''/x'', As = ''alice''\<rparr>"

definition share_B :: Share where
  "share_B = \<lparr>Name = ''B'', Path = ''/y'', As = ''alice''\<rparr>"

definition example_userServer :: userServer where
  "example_userServer =
     \<lparr>shares = [share_A], username = ''alice'',
      executable = ''/usr/sbin/tailscaled'', cmd = None, addr = [], closed = False\<rparr>"

text \<open>
  Three failures, two and then five milliseconds apart, the first at a clock reading
  of \<open>64 * 10 ^ 18\<close> nanoseconds.
\<close>

definition example_turns :: "turn list" where
  "example_turns =
     [\<lparr>turn_proc = failing_proc, turn_now = 64000000000000000000, turn_Close = False\<rparr>,
      \<lparr>turn_proc = failing_proc, turn_now = 64000000000002000000, turn_Close = False\<rparr>,
      \<lparr>turn_proc = failing_proc, turn_now = 64000000000007000000, turn_Close = False\<rparr>]"

text \<open>\<^verbatim>\<open>strings.Split(p, "/")\<close>, for the example environment.\<close>

fun split_slash :: "string \<Rightarrow> string list" where
  "split_slash [] = [[]]"
| "split_slash (c # cs) =
     (if c = CHR ''/'' then [] # split_slash cs
      else (case split_slash cs of seg # rest \<Rightarrow> (c # seg) # rest | [] \<Rightarrow> [[c]]))"

text \<open>
  An environment for the examples. Its hexadecimal decoding and encoding know the names
  A and B only, and its address parser the one address \<^verbatim>\<open>127.0.0.1:8080\<close>.
\<close>

definition example_sys :: sys where
  "example_sys =
     \<lparr>AllowShareAs = True,
      os_Executable = Inr ''/usr/sbin/tailscaled'',
      SplitHostPort = (\<lambda>a. if CHR '':'' \<in> set a
                            then Inr (takeWhile (\<lambda>c. c \<noteq> CHR '':'') a,
                                      tl (dropWhile (\<lambda>c. c \<noteq> CHR '':'') a))
                            else Inl ''missing port in address''),
      hex_DecodeString = (\<lambda>h. if h = ''41'' then Inr ''A''
                               else if h = ''42'' then Inr ''B''
                               else Inl ''invalid byte''),
      hex_EncodeToString = (\<lambda>n. if n = ''A'' then ''41'' else if n = ''B'' then ''42'' else []),
      PathEscape = (\<lambda>n. n),
      ParseAddrPort_ok = (\<lambda>a. a = ''127.0.0.1:8080''),
      net_Dial_tcp = (\<lambda>a. Inr 1),
      safesocket_Connect = (\<lambda>a. Inl ''connection refused''),
      CleanAndSplit = (\<lambda>p. split_slash (dropWhile (\<lambda>c. c = CHR ''/'') p)),
      Process_Kill_err = (\<lambda>c. None)\<rparr>"

definition empty_fs :: FileSystemForRemote where
  "empty_fs = \<lparr>fileServerAddr = [], fs_shares = [], children = [], userServers = []\<rparr>"

text \<open>The file system after the shares A and B of alice have been installed.\<close>

definition example_fs :: FileSystemForRemote where
  "example_fs = fst (SetShares example_sys empty_fs [(''A'', share_A), (''B'', share_B)])"

definition no_permissions :: Permissions where
  "no_permissions name = PermissionNone"

definition read_only_A :: Permissions where
  "read_only_A name = (if name = ''A'' then PermissionReadOnly else PermissionNone)"

definition get_A :: request where
  "get_A = \<lparr>Method = ''GET'', URL_Path = ''/A/file.txt''\<rparr>"

definition put_A :: request where
  "put_A = \<lparr>Method = ''PUT'', URL_Path = ''/A/file.txt''\<rparr>"

text \<open>The example file system once the user server of alice has published an address.\<close>

definition serving_fs :: "string \<Rightarrow> FileSystemForRemote" where
  "serving_fs a =
     example_fs\<lparr>userServers := [(''alice'', example_userServer\<lparr>addr := a\<rparr>)],
                fileServerAddr := ''127.0.0.1:9000''\<rparr>"




section \<open>Properties\<close>

subsection \<open>Facts about \<^verbatim>\<open>run\<close> and the loop body\<close>

lemma run_cmd_closed: "closed (fst (run_cmd p s evs c)) = closed s"
  by (simp add: run_cmd_def Let_def split: option.splits wait.splits)

lemma run_closed: "closed (fst (run p s)) = closed s"
  by (simp add: run_def canSudo_def run_cmd_closed Let_def split: option.splits)

lemma strip_leading_Nil: "strip_leading ws [] = []"
proof -
  have "find (\<lambda>w. w \<noteq> [] \<and> take (length w) [] = w) ws = None"
    by (auto simp: find_None_iff)
  then show ?thesis by (subst strip_leading.simps) simp
qed

lemma TrimSpace_Nil: "TrimSpace [] = []"
  by (simp add: TrimSpace_def strip_leading_Nil)


lemma TrimSpace_unicode: "TrimSpace ([CHR 0x20, CHR 0xC2, CHR 0xA0] @ ''ab c'' @ [CHR 0xE2, CHR 0x80, CHR 0xA8, CHR 0x09]) = ''ab c''"
  by (simp add: TrimSpace_def strip_leading.simps white_space_def)






lemma wrap64_id: "- (2 ^ 63) \<le> x \<Longrightarrow> x < 2 ^ 63 \<Longrightarrow> wrap64 x = x"
  by (simp add: wrap64_def)

lemma pow2_ms_bounds:
  assumes "k \<le> 43"
  shows "0 < (2::int) ^ k * Millisecond \<and> (2::int) ^ k * Millisecond < 2 ^ 63"
proof -
  have "(2::int) ^ k \<le> 2 ^ 43" using assms by (intro power_increasing) simp_all
  then have "(2::int) ^ k * 1000000 \<le> 2 ^ 43 * 1000000" by (intro mult_right_mono) simp_all
  also have "\<dots> < (2::int) ^ 63" by simp
  finally have "(2::int) ^ k * 1000000 < 2 ^ 63" .
  moreover have "0 < (2::int) ^ k * 1000000" by (intro mult_pos_pos) simp_all
  ultimately show ?thesis unfolding Millisecond_def by blast
qed

lemma sleepTime_capped:
  assumes "k \<le> 43"
  shows "capped (wrap64 (Duration_of_Pow2 oor k * Millisecond)) = backoff_delay k"
proof -
  have d: "Duration_of_Pow2 oor k = 2 ^ k"
    using assms by (simp add: Duration_of_Pow2_def)
  have "wrap64 (2 ^ k * Millisecond) = 2 ^ k * Millisecond"
    using pow2_ms_bounds [OF assms] by (intro wrap64_id) linarith+
  then show ?thesis
    unfolding d capped_def backoff_delay_def min_def by auto
qed

lemma runLoop_body_capped:
  "runLoop_body oor v now =
     (capped (wrap64 (Duration_of_Pow2 oor
        (if time_Sub now (timeOfLastFailure v) < maxSleepTime then consecutiveFailures v + 1 else 1)
        * Millisecond)),
      \<lparr>consecutiveFailures =
         (if time_Sub now (timeOfLastFailure v) < maxSleepTime then consecutiveFailures v + 1 else 1),
       timeOfLastFailure = now\<rparr>)"
  unfolding runLoop_body_def capped_def Let_def by (rule refl)

lemma runLoop_body_within:
  assumes "time_Sub now (timeOfLastFailure v) < maxSleepTime" and "consecutiveFailures v < 43"
  shows "runLoop_body oor v now =
           (backoff_delay (Suc (consecutiveFailures v)),
            \<lparr>consecutiveFailures = Suc (consecutiveFailures v), timeOfLastFailure = now\<rparr>)"
proof -
  have "capped (wrap64 (Duration_of_Pow2 oor (Suc (consecutiveFailures v)) * Millisecond))
          = backoff_delay (Suc (consecutiveFailures v))"
    using assms(2) by (intro sleepTime_capped) simp
  then show ?thesis
    using assms(1) by (simp add: runLoop_body_capped)
qed

lemma backoff_delay_1: "backoff_delay 1 = 2 * Millisecond"
  by (simp add: backoff_delay_def Millisecond_def maxSleepTime_def Second_def)

lemma runLoop_body_reset:
  assumes "maxSleepTime \<le> time_Sub now (timeOfLastFailure v)"
  shows "runLoop_body oor v now =
           (backoff_delay 1, \<lparr>consecutiveFailures = 1, timeOfLastFailure = now\<rparr>)"
proof -
  have "capped (wrap64 (Duration_of_Pow2 oor 1 * Millisecond)) = backoff_delay 1"
    by (intro sleepTime_capped) simp
  then show ?thesis
    using assms by (simp add: runLoop_body_capped)
qed

lemma runLoop_body_first:
  "runLoop_body oor \<lparr>consecutiveFailures = 0, timeOfLastFailure = 0\<rparr> now =
     (backoff_delay 1, \<lparr>consecutiveFailures = 1, timeOfLastFailure = now\<rparr>)"
proof -
  have "capped (wrap64 (Duration_of_Pow2 oor 1 * Millisecond)) = backoff_delay 1"
    by (intro sleepTime_capped) simp
  then show ?thesis
    by (simp add: runLoop_body_capped)
qed

lemma run_returns_D:
  assumes "run_returns p"
  obtains s1 evs err where "run p s = (s1, evs, Returns err)"
proof -
  obtain s1 evs r where r: "run p s = (s1, evs, r)"
    by (cases "run p s") auto
  with assms have "r \<noteq> Blocks"
    unfolding run_returns_def by (metis snd_conv)
  then obtain err where "r = Returns err" by (cases r) auto
  with r that show ?thesis by blast
qed

lemma runLoop_from_step:
  assumes "\<not> closed s" and "run (turn_proc t) s = (s1, evs, Returns err)" and "\<not> turn_Close t"
    and "runLoop_body oor v (turn_now t) = (d, v')"
  shows "snd (snd (runLoop_from oor v s (t # ts))) = d # snd (snd (runLoop_from oor v' s1 ts))"
  using assms by (simp add: split_def Let_def)

lemma runLoop_from_within:
  assumes "\<not> closed s"
    and "\<forall>t \<in> set ts. \<not> turn_Close t \<and> run_returns (turn_proc t)"
    and "within_ceiling (timeOfLastFailure v) ts"
    and "consecutiveFailures v + length ts \<le> 43"
  shows "snd (snd (runLoop_from oor v s ts)) =
           map backoff_delay [Suc (consecutiveFailures v) ..< Suc (consecutiveFailures v + length ts)]"
  using assms
proof (induction ts arbitrary: v s)
  case Nil
  then show ?case by simp
next
  case (Cons t ts)
  from Cons.prems(2) have "run_returns (turn_proc t)" by simp
  then obtain s1 evs err where r: "run (turn_proc t) s = (s1, evs, Returns err)"
    by (rule run_returns_D)
  have s1: "\<not> closed s1" using run_closed [of "turn_proc t" s] r Cons.prems(1) by simp
  let ?v' = "\<lparr>consecutiveFailures = Suc (consecutiveFailures v), timeOfLastFailure = turn_now t\<rparr>"
  have body: "runLoop_body oor v (turn_now t) = (backoff_delay (Suc (consecutiveFailures v)), ?v')"
    using Cons.prems(3,4) by (intro runLoop_body_within) simp_all
  have IH: "snd (snd (runLoop_from oor ?v' s1 ts)) =
      map backoff_delay [Suc (consecutiveFailures ?v') ..< Suc (consecutiveFailures ?v' + length ts)]"
    using Cons.prems s1 by (intro Cons.IH) simp_all
  have step: "snd (snd (runLoop_from oor v s (t # ts))) =
      backoff_delay (Suc (consecutiveFailures v)) # snd (snd (runLoop_from oor ?v' s1 ts))"
    using Cons.prems(1) r _ body by (rule runLoop_from_step) (use Cons.prems(2) in simp)
  have "[Suc (consecutiveFailures v) ..< Suc (consecutiveFailures v + length (t # ts))] =
        Suc (consecutiveFailures v) # [Suc (Suc (consecutiveFailures v)) ..< Suc (Suc (consecutiveFailures v) + length ts)]"
    by (subst upt_conv_Cons) simp_all
  then show ?case
    using step IH by simp
qed

subsection \<open>Facts about the example file system, the grouping and the events\<close>

lemma example_fs_eq:
  "example_fs =
     \<lparr>fileServerAddr = [],
      fs_shares = [(''A'', share_A), (''B'', share_B)],
      children = [(''A'', \<lparr>child_Name = ''A'', BaseURL = ''http://41/A''\<rparr>),
                  (''B'', \<lparr>child_Name = ''B'', BaseURL = ''http://42/B''\<rparr>)],
      userServers = [(''alice'', \<lparr>shares = [share_A, share_B], username = ''alice'',
                       executable = ''/usr/sbin/tailscaled'', cmd = None, addr = [],
                       closed = False\<rparr>)]\<rparr>"
  by (simp add: example_fs_def SetShares_def example_sys_def empty_fs_def share_A_def share_B_def
      SetShares_group_def buildChild_def Let_def)

lemma grouped_Nil: "grouped exe [] []"
  by (simp add: grouped_def owned_by_def)

lemma SetShares_group_map_of:
  "map_of (SetShares_group exe sh us) u =
     (if u = As sh
      then (case map_of us u of
              Some p \<Rightarrow> Some (p\<lparr>shares := shares p @ [sh]\<rparr>)
            | None \<Rightarrow> Some ((new_userServer exe u)\<lparr>shares := [sh]\<rparr>))
      else map_of us u)"
  by (simp add: SetShares_group_def new_userServer_def update_conv' Let_def split: option.splits)

lemma SetShares_group_distinct:
  "distinct (map fst us) \<Longrightarrow> distinct (map fst (SetShares_group exe sh us))"
  by (simp add: SetShares_group_def Let_def distinct_update split: option.splits)

lemma grouped_step:
  assumes "grouped exe shs us"
  shows "grouped exe (shs @ [sh]) (SetShares_group exe sh us)"
  unfolding grouped_def
proof (intro conjI allI)
  show "distinct (map fst (SetShares_group exe sh us))"
    using assms by (simp add: grouped_def SetShares_group_distinct)
next
  fix u
  have m: "map_of us u = (if owned_by u shs = [] then None
            else Some ((new_userServer exe u)\<lparr>shares := owned_by u shs\<rparr>))"
    using assms by (simp add: grouped_def)
  show "map_of (SetShares_group exe sh us) u =
        (if owned_by u (shs @ [sh]) = [] then None
         else Some ((new_userServer exe u)\<lparr>shares := owned_by u (shs @ [sh])\<rparr>))"
  proof (cases "u = As sh")
    case True
    then have "owned_by u (shs @ [sh]) = owned_by u shs @ [sh]"
      by (simp add: owned_by_def)
    then show ?thesis
      using True m by (simp add: SetShares_group_map_of new_userServer_def)
  next
    case False
    then have "owned_by u (shs @ [sh]) = owned_by u shs"
      by (auto simp: owned_by_def)
    then show ?thesis
      using False m by (simp add: SetShares_group_map_of)
  qed
qed

lemma grouped_fold:
  "grouped exe pre us \<Longrightarrow> grouped exe (pre @ shs) (fold (SetShares_group exe) shs us)"
proof (induction shs arbitrary: pre us)
  case Nil
  then show ?case by simp
next
  case (Cons sh shs)
  from Cons.prems have "grouped exe (pre @ [sh]) (SetShares_group exe sh us)"
    by (rule grouped_step)
  from Cons.IH [OF this] show ?case by simp
qed

lemma grouped_SetShares: "grouped exe shs (fold (SetShares_group exe) shs [])"
  using grouped_fold [OF grouped_Nil, of exe shs] by simp

lemma grouped_keys:
  assumes "grouped exe shs us"
  shows "fst ` set us = As ` set shs"
proof -
  have "fst ` set us = dom (map_of us)" by (simp add: dom_map_of_conv_image_fst)
  also have "\<dots> = {u. owned_by u shs \<noteq> []}"
    using assms by (auto simp: grouped_def dom_def)
  also have "\<dots> = As ` set shs"
    by (auto simp: owned_by_def filter_empty_conv)
  finally show ?thesis .
qed

lemma grouped_entry:
  assumes "grouped exe shs us" and "(u, p) \<in> set us"
  shows "p = (new_userServer exe u)\<lparr>shares := owned_by u shs\<rparr>"
proof -
  from assms have "distinct (map fst us)" by (simp add: grouped_def)
  with assms(2) have "map_of us u = Some p" by simp
  moreover have "map_of us u = (if owned_by u shs = [] then None
            else Some ((new_userServer exe u)\<lparr>shares := owned_by u shs\<rparr>))"
    using assms(1) by (simp add: grouped_def)
  ultimately show ?thesis
    by (simp split: if_splits)
qed

lemma run_cmd_Start:
  "cmd_Start c \<in> set (fst (snd (run_cmd p s evs c0))) \<Longrightarrow> cmd_Start c \<in> set evs \<or> c = c0"
  by (auto simp: run_cmd_def Let_def split: option.splits wait.splits)

lemma run_Start_args:
  assumes "cmd_Start c \<in> set (fst (snd (run p s)))"
  shows "c = \<lparr>cmd_name = ''sudo'', cmd_args = [''-n'', ''-u'', username s, executable s] @ run_args s\<rparr>
       \<or> c = \<lparr>cmd_name = executable s, cmd_args = run_args s\<rparr>"
  using assms
  by (auto simp: run_def canSudo_def Let_def split: if_splits option.splits dest!: run_cmd_Start)

lemma takeWhile_Go_runLoop:
  "takeWhile (\<lambda>x. x \<noteq> mu_Unlock) (map (\<lambda>(u, p). Go_runLoop u) us @ rest)
     = map (\<lambda>(u, p). Go_runLoop u) us @ takeWhile (\<lambda>x. x \<noteq> mu_Unlock) rest"
  by (induction us) auto

lemma dropWhile_Go_runLoop:
  "dropWhile (\<lambda>x. x \<noteq> mu_Unlock) (map (\<lambda>(u, p). Go_runLoop u) us @ rest)
     = dropWhile (\<lambda>x. x \<noteq> mu_Unlock) rest"
  by (induction us) auto

lemma no_teardown_Go_runLoop:
  "filter is_teardown (map (\<lambda>(u, p). Go_runLoop u) us) = []"
  by (induction us) auto

lemma SetShares_installs:
  assumes "\<not> (AllowShareAs e \<and> isl (os_Executable e))"
  shows "fs_shares (fst (SetShares e s sharesMap)) = sharesMap
       \<and> snd (SetShares e s sharesMap) =
           map (\<lambda>(u, p). Go_runLoop u) (userServers (fst (SetShares e s sharesMap)))
           @ [mu_Lock, Store_shares, Store_children, Store_userServers, mu_Unlock]
           @ stopUserServers e (userServers s) @ closeChildren (children s)"
  using assms by (cases "os_Executable e") (simp_all add: SetShares_def Let_def)

lemma children_keys:
  "fst ` set (fold (\<lambda>share m. AList.update (Name share) (buildChild e share) m) shs m0)
     = fst ` set m0 \<union> Name ` set shs"
  by (induction shs arbitrary: m0) (auto simp: dom_update)

lemma SetShares_children_keys:
  assumes "\<not> (AllowShareAs e \<and> isl (os_Executable e))"
  shows "fst ` set (children (fst (SetShares e s sharesMap))) = Name ` snd ` set sharesMap"
  using assms children_keys [of e "map snd sharesMap" "[]"]
  by (cases "os_Executable e") (simp_all add: SetShares_def Let_def)



subsection \<open>The claims\<close>

text \<open>
  C1. When the \<^verbatim>\<open>canSudo\<close> probe fails and the current user has UID \<^verbatim>\<open>"0"\<close>, \<^verbatim>\<open>run\<close> returns
  the error of \<^verbatim>\<open>assertNotRoot\<close>; the only event of the call is the probe, so no file
  server is started, and the user server, its \<open>addr\<close> and \<open>cmd\<close> included, is as before.
\<close>

theorem run_as_root_fails_closed:
  assumes "\<not> canSudo_ok p" and "user_Current p = Inr u" and "Uid u = ''0''"
  shows "run p s = (s, snd (canSudo p s), Returns (Some (IsRoot (user_Name u))))
         \<and> addr (fst (run p s)) = addr s
         \<and> cmd (fst (run p s)) = cmd s
         \<and> (\<forall>c. cmd_Start c \<notin> set (fst (snd (run p s))))"
  using assms by (simp add: run_def canSudo_def assertNotRoot_def)

theorem run_as_root_fails_closed_witness:
  "\<not> canSudo_ok example_proc
   \<and> user_Current example_proc = Inr example_user
   \<and> Uid example_user = ''0''
   \<and> run example_proc example_userServer =
       (example_userServer,
        [Run_probe \<lparr>cmd_name = ''sudo'',
                    cmd_args = [''-n'', ''-u'', ''alice'', ''/usr/sbin/tailscaled'', ''-h'']\<rparr>],
        Returns (Some (IsRoot ''root'')))
   \<and> addr (fst (run example_proc example_userServer)) = []"
  using run_as_root_fails_closed [of example_proc example_user example_userServer]
  by (simp add: example_proc_def example_user_def example_userServer_def canSudo_def)

text \<open>
  C2, as amended. When the policy gives \<open>PermissionNone\<close> for the first path segment: a
  request with a mutating method is answered with \<^verbatim>\<open>http.Error(w, "not found", 404)\<close>; a
  request with a read method is handed to the composed handler, set up with the children
  whose names the policy does not answer with \<open>PermissionNone\<close>, so without the child of
  that name. In both cases the outcome is the same for any two file systems that differ
  at most in the child of that name.
\<close>

theorem ServeHTTPWithPerms_no_permission:
  assumes "CleanAndSplit e (URL_Path r) = share # rest"
    and "permissions share = PermissionNone"
  shows "(writeMethods (Method r) \<longrightarrow>
            ServeHTTPWithPerms e s permissions r = http_Error ''not found'' 404)
       \<and> (\<not> writeMethods (Method r) \<longrightarrow>
            ServeHTTPWithPerms e s permissions r =
              Handler_ServeHTTP (visible_children permissions (children s)) r)
       \<and> visible_children permissions (children s) =
           visible_children permissions (filter (\<lambda>(name, c). name \<noteq> share) (children s))
       \<and> (\<forall>s'. filter (\<lambda>(name, c). name \<noteq> share) (children s')
                 = filter (\<lambda>(name, c). name \<noteq> share) (children s) \<longrightarrow>
              ServeHTTPWithPerms e s' permissions r = ServeHTTPWithPerms e s permissions r)"
proof -
  have vis: "visible_children permissions cs =
             visible_children permissions (filter (\<lambda>(name, c). name \<noteq> share) cs)" for cs
    using assms(2) unfolding visible_children_def
    by (intro arg_cong [where f = "map snd"]) (auto intro: filter_cong simp: split_def)
  have "ServeHTTPWithPerms e s' permissions r = ServeHTTPWithPerms e s permissions r"
    if "filter (\<lambda>(name, c). name \<noteq> share) (children s')
        = filter (\<lambda>(name, c). name \<noteq> share) (children s)" for s'
  proof -
    have "visible_children permissions (children s') = visible_children permissions (children s)"
      using vis [of "children s'"] vis [of "children s"] that by simp
    then show ?thesis by (simp add: ServeHTTPWithPerms_def)
  qed
  moreover have "writeMethods (Method r) \<longrightarrow>
            ServeHTTPWithPerms e s permissions r = http_Error ''not found'' 404"
    using assms by (simp add: ServeHTTPWithPerms_def Let_def)
  moreover have "\<not> writeMethods (Method r) \<longrightarrow>
            ServeHTTPWithPerms e s permissions r =
              Handler_ServeHTTP (visible_children permissions (children s)) r"
    by (simp add: ServeHTTPWithPerms_def Let_def)
  ultimately show ?thesis using vis by blast
qed

theorem ServeHTTPWithPerms_no_permission_witness:
  "CleanAndSplit example_sys (URL_Path put_A) = [''A'', ''file.txt'']
   \<and> CleanAndSplit example_sys (URL_Path get_A) = [''A'', ''file.txt'']
   \<and> no_permissions ''A'' = PermissionNone
   \<and> writeMethods (Method put_A) \<and> \<not> writeMethods (Method get_A)
   \<and> ServeHTTPWithPerms example_sys example_fs no_permissions put_A = http_Error ''not found'' 404
   \<and> ServeHTTPWithPerms example_sys example_fs no_permissions get_A = Handler_ServeHTTP [] get_A
   \<and> ServeHTTPWithPerms example_sys empty_fs no_permissions get_A
       = ServeHTTPWithPerms example_sys example_fs no_permissions get_A"
  using ServeHTTPWithPerms_no_permission [of example_sys put_A "''A''" "[''file.txt'']" no_permissions example_fs]
    ServeHTTPWithPerms_no_permission [of example_sys get_A "''A''" "[''file.txt'']" no_permissions example_fs]
  by (simp add: example_fs_eq empty_fs_def example_sys_def put_A_def get_A_def no_permissions_def
      writeMethods_def visible_children_def ServeHTTPWithPerms_def)

text \<open>
  C2 as stated fails: for \<^verbatim>\<open>GET /A/file.txt\<close> without permission for A, \<^verbatim>\<open>ServeHTTPWithPerms\<close>
  writes no "not found" of its own; it hands the request to the composed handler, while
  the same request with \<^verbatim>\<open>PUT\<close> gets the "not found" error.
\<close>

theorem read_without_permission_counterexample:
  "no_permissions ''A'' = PermissionNone
   \<and> \<not> writeMethods (Method get_A)
   \<and> CleanAndSplit example_sys (URL_Path get_A) = [''A'', ''file.txt'']
   \<and> ServeHTTPWithPerms example_sys example_fs no_permissions get_A = Handler_ServeHTTP [] get_A
   \<and> ServeHTTPWithPerms example_sys example_fs no_permissions get_A \<noteq> http_Error ''not found'' 404
   \<and> ServeHTTPWithPerms example_sys example_fs no_permissions put_A = http_Error ''not found'' 404"
  by (simp add: example_fs_eq example_sys_def put_A_def get_A_def no_permissions_def
      writeMethods_def visible_children_def ServeHTTPWithPerms_def)

text \<open>
  C3. When the policy gives \<open>PermissionReadOnly\<close> for the first path segment, a request
  with a mutating method is answered with \<^verbatim>\<open>http.Error(w, "permission denied", 403)\<close> and
  is not handed to the composed handler, which alone dials; a request with a read method
  is handed to the composed handler, whose children include the child of that name.
\<close>

theorem ServeHTTPWithPerms_read_only:
  assumes "CleanAndSplit e (URL_Path r) = share # rest"
    and "permissions share = PermissionReadOnly"
  shows "(writeMethods (Method r) \<longrightarrow>
            ServeHTTPWithPerms e s permissions r = http_Error ''permission denied'' 403)
       \<and> (\<not> writeMethods (Method r) \<longrightarrow>
            ServeHTTPWithPerms e s permissions r =
              Handler_ServeHTTP (visible_children permissions (children s)) r)
       \<and> (\<forall>child. (share, child) \<in> set (children s) \<longrightarrow>
            child \<in> set (visible_children permissions (children s)))"
  using assms by (force simp: ServeHTTPWithPerms_def visible_children_def Let_def)

theorem ServeHTTPWithPerms_read_only_witness:
  "CleanAndSplit example_sys (URL_Path put_A) = [''A'', ''file.txt'']
   \<and> CleanAndSplit example_sys (URL_Path get_A) = [''A'', ''file.txt'']
   \<and> read_only_A ''A'' = PermissionReadOnly
   \<and> writeMethods (Method put_A) \<and> \<not> writeMethods (Method get_A)
   \<and> ServeHTTPWithPerms example_sys example_fs read_only_A put_A
       = http_Error ''permission denied'' 403
   \<and> ServeHTTPWithPerms example_sys example_fs read_only_A get_A
       = Handler_ServeHTTP [\<lparr>child_Name = ''A'', BaseURL = ''http://41/A''\<rparr>] get_A"
  using ServeHTTPWithPerms_read_only [of example_sys put_A "''A''" "[''file.txt'']" read_only_A example_fs]
    ServeHTTPWithPerms_read_only [of example_sys get_A "''A''" "[''file.txt'']" read_only_A example_fs]
  by (simp add: example_fs_eq example_sys_def put_A_def get_A_def read_only_A_def writeMethods_def
      visible_children_def)

text \<open>
  C4. The code at the input where the claim fails: a user server that has published
  \<^verbatim>\<open>127.0.0.1:8080\<close> runs a child that starts, writes nothing and exits. The first
  \<^verbatim>\<open>Scan\<close> meets the end of the stream, \<^verbatim>\<open>Err()\<close> is nil, \<^verbatim>\<open>Text()\<close> is empty, and \<^verbatim>\<open>run\<close>
  stores the empty string in \<open>addr\<close> before it returns the error of \<^verbatim>\<open>Wait\<close>.
\<close>

theorem silent_child_clears_addr:
  "first_Scan (child_stdout silent_proc) = Some \<lparr>Scan_true = False, Err = None, Text = []\<rparr>
   \<and> addr (example_userServer\<lparr>addr := ''127.0.0.1:8080''\<rparr>) = ''127.0.0.1:8080''
   \<and> addr (fst (run silent_proc (example_userServer\<lparr>addr := ''127.0.0.1:8080''\<rparr>))) = []
   \<and> snd (snd (run silent_proc (example_userServer\<lparr>addr := ''127.0.0.1:8080''\<rparr>)))
       = Returns (Some (WaitError ''exit status 1''))"
  by (simp add: run_def canSudo_def run_cmd_def silent_proc_def first_Scan_def dropCR_def
      TrimSpace_Nil example_userServer_def Let_def MaxScanTokenSize_def)

text \<open>
  C5, as amended. From a fresh start, while every failure comes less than 30 seconds
  after the one before it and for up to 43 failures in a row, the delay after the \<open>k\<close>-th
  failure is \<open>2 ^ k\<close> milliseconds capped at 30 seconds: 2, 4, 8, ... milliseconds. A
  failure that comes 30 seconds or more after the one before it gets the first delay,
  2 milliseconds, and the loop goes on as a freshly started one.
\<close>

theorem runLoop_backoff:
  "(\<not> closed s \<and> (\<forall>t \<in> set (t0 # ts). \<not> turn_Close t \<and> run_returns (turn_proc t))
      \<and> within_ceiling (turn_now t0) ts \<and> length (t0 # ts) \<le> 43
     \<longrightarrow> snd (snd (runLoop oor s (t0 # ts))) = map backoff_delay [1 ..< Suc (length (t0 # ts))])
   \<and> (maxSleepTime \<le> time_Sub (turn_now t0) (timeOfLastFailure v)
     \<longrightarrow> fst (runLoop_body oor v (turn_now t0)) = backoff_delay 1
       \<and> runLoop_from oor v s (t0 # ts) = runLoop oor s (t0 # ts))
   \<and> backoff_delay 1 = 2 * Millisecond"
proof (intro conjI impI)
  assume a: "\<not> closed s \<and> (\<forall>t \<in> set (t0 # ts). \<not> turn_Close t \<and> run_returns (turn_proc t))
      \<and> within_ceiling (turn_now t0) ts \<and> length (t0 # ts) \<le> 43"
  then have "run_returns (turn_proc t0)" by simp
  then obtain s1 evs err where r: "run (turn_proc t0) s = (s1, evs, Returns err)"
    by (rule run_returns_D)
  have s1: "\<not> closed s1" using run_closed [of "turn_proc t0" s] r a by simp
  let ?v0 = "\<lparr>consecutiveFailures = 0, timeOfLastFailure = 0\<rparr>"
  let ?v' = "\<lparr>consecutiveFailures = 1, timeOfLastFailure = turn_now t0\<rparr>"
  have rest: "snd (snd (runLoop_from oor ?v' s1 ts)) =
      map backoff_delay [Suc (consecutiveFailures ?v') ..< Suc (consecutiveFailures ?v' + length ts)]"
    using a s1 by (intro runLoop_from_within) simp_all
  have step: "snd (snd (runLoop_from oor ?v0 s (t0 # ts))) =
      backoff_delay 1 # snd (snd (runLoop_from oor ?v' s1 ts))"
    using _ r _ runLoop_body_first by (rule runLoop_from_step) (use a in simp_all)
  have "[1 ..< Suc (length (t0 # ts))] = 1 # [Suc 1 ..< Suc (1 + length ts)]"
    by (subst upt_conv_Cons) simp_all
  then show "snd (snd (runLoop oor s (t0 # ts))) = map backoff_delay [1 ..< Suc (length (t0 # ts))]"
    using step rest unfolding runLoop_def by simp
next
  assume "maxSleepTime \<le> time_Sub (turn_now t0) (timeOfLastFailure v)"
  then show "fst (runLoop_body oor v (turn_now t0)) = backoff_delay 1"
    by (simp add: runLoop_body_reset)
next
  assume "maxSleepTime \<le> time_Sub (turn_now t0) (timeOfLastFailure v)"
  then have "runLoop_body oor v (turn_now t0) =
      runLoop_body oor \<lparr>consecutiveFailures = 0, timeOfLastFailure = 0\<rparr> (turn_now t0)"
    by (simp add: runLoop_body_reset runLoop_body_first)
  then show "runLoop_from oor v s (t0 # ts) = runLoop oor s (t0 # ts)"
    unfolding runLoop_def by simp
next
  show "backoff_delay 1 = 2 * Millisecond"
    by (rule backoff_delay_1)
qed

theorem runLoop_backoff_witness:
  "\<not> closed example_userServer
   \<and> list_all (\<lambda>t. \<not> turn_Close t \<and> run_returns (turn_proc t)) example_turns
   \<and> within_ceiling (turn_now (hd example_turns)) (tl example_turns)
   \<and> length example_turns \<le> 43
   \<and> snd (snd (runLoop minDuration example_userServer example_turns)) = [2000000, 4000000, 8000000]
   \<and> maxSleepTime \<le> time_Sub (turn_now (hd example_turns)) 63999999969000000000
   \<and> runLoop_from minDuration \<lparr>consecutiveFailures = 7, timeOfLastFailure = 63999999969000000000\<rparr>
        example_userServer example_turns
      = runLoop minDuration example_userServer example_turns"
  using runLoop_backoff [of example_userServer "hd example_turns" "tl example_turns" minDuration
      "\<lparr>consecutiveFailures = 7, timeOfLastFailure = 63999999969000000000\<rparr>"]
  by (simp add: example_turns_def example_userServer_def run_returns_def run_def canSudo_def
      run_cmd_def failing_proc_def Let_def time_Sub_def maxSleepTime_def Second_def
      Millisecond_def maxDuration_def minDuration_def backoff_delay_def upt_rec)

text \<open>
  C5 as stated fails: the first three delays are 2, 4 and 8 milliseconds, not 1, 2
  and 4.
\<close>

theorem runLoop_first_delays_counterexample:
  "\<not> closed example_userServer
   \<and> snd (snd (run failing_proc example_userServer)) = Returns (Some (StartError ''exec: not found''))
   \<and> within_ceiling (turn_now (hd example_turns)) (tl example_turns)
   \<and> snd (snd (runLoop minDuration example_userServer example_turns))
       = [2 * Millisecond, 4 * Millisecond, 8 * Millisecond]
   \<and> snd (snd (runLoop minDuration example_userServer example_turns))
       \<noteq> [1 * Millisecond, 2 * Millisecond, 4 * Millisecond]"
  by (simp add: example_turns_def example_userServer_def runLoop_def run_def canSudo_def
      run_cmd_def failing_proc_def Let_def runLoop_body_def time_Sub_def maxSleepTime_def Second_def
      Millisecond_def maxDuration_def minDuration_def Duration_of_Pow2_def wrap64_def)

text \<open>
  C6, as amended. No user server is stopped and no child closed before the write lock
  is released. When \<^verbatim>\<open>SetShares\<close> installs, the goroutines of the new user servers are
  started, then the three maps are stored between \<open>mu_Lock\<close> and \<open>mu_Unlock\<close>, and what
  follows the unlock is the stopping of the previous user servers and then the closing
  of the previous children. \<^verbatim>\<open>Close\<close> stores empty maps of user servers and children in
  one lock section, leaves the map of shares as it is, and tears down after the unlock
  in the same way.
\<close>

theorem teardown_after_install:
  "filter is_teardown (takeWhile (\<lambda>x. x \<noteq> mu_Unlock) (snd (SetShares e s sharesMap))) = []
   \<and> (\<not> (AllowShareAs e \<and> isl (os_Executable e)) \<longrightarrow>
        fs_shares (fst (SetShares e s sharesMap)) = sharesMap
      \<and> fst ` set (children (fst (SetShares e s sharesMap))) = Name ` snd ` set sharesMap
      \<and> takeWhile (\<lambda>x. x \<noteq> mu_Unlock) (snd (SetShares e s sharesMap)) =
          map (\<lambda>(u, p). Go_runLoop u) (userServers (fst (SetShares e s sharesMap)))
          @ [mu_Lock, Store_shares, Store_children, Store_userServers]
      \<and> dropWhile (\<lambda>x. x \<noteq> mu_Unlock) (snd (SetShares e s sharesMap)) =
          mu_Unlock # stopUserServers e (userServers s) @ closeChildren (children s))
   \<and> userServers (fst (Close e s)) = [] \<and> children (fst (Close e s)) = []
   \<and> fs_shares (fst (Close e s)) = fs_shares s
   \<and> takeWhile (\<lambda>x. x \<noteq> mu_Unlock) (snd (Close e s)) = [mu_Lock, Store_userServers, Store_children]
   \<and> dropWhile (\<lambda>x. x \<noteq> mu_Unlock) (snd (Close e s)) =
       mu_Unlock # stopUserServers e (userServers s) @ closeChildren (children s)"
proof -
  let ?go = "map (\<lambda>(u, p). Go_runLoop u) (userServers (fst (SetShares e s sharesMap)))"
  let ?down = "stopUserServers e (userServers s) @ closeChildren (children s)"
  have inst: "fs_shares (fst (SetShares e s sharesMap)) = sharesMap
      \<and> fst ` set (children (fst (SetShares e s sharesMap))) = Name ` snd ` set sharesMap
      \<and> takeWhile (\<lambda>x. x \<noteq> mu_Unlock) (snd (SetShares e s sharesMap)) =
          ?go @ [mu_Lock, Store_shares, Store_children, Store_userServers]
      \<and> dropWhile (\<lambda>x. x \<noteq> mu_Unlock) (snd (SetShares e s sharesMap)) = mu_Unlock # ?down"
    if ok: "\<not> (AllowShareAs e \<and> isl (os_Executable e))"
  proof -
    have ev: "snd (SetShares e s sharesMap) =
        ?go @ [mu_Lock, Store_shares, Store_children, Store_userServers, mu_Unlock] @ ?down"
      using SetShares_installs [OF ok] by simp
    have "takeWhile (\<lambda>x. x \<noteq> mu_Unlock) (?go @ [mu_Lock, Store_shares, Store_children, Store_userServers, mu_Unlock] @ ?down)
            = ?go @ [mu_Lock, Store_shares, Store_children, Store_userServers]"
      by (simp add: takeWhile_Go_runLoop)
    moreover have "dropWhile (\<lambda>x. x \<noteq> mu_Unlock) (?go @ [mu_Lock, Store_shares, Store_children, Store_userServers, mu_Unlock] @ ?down)
            = mu_Unlock # ?down"
      by (simp add: dropWhile_Go_runLoop)
    ultimately show ?thesis
      using SetShares_installs [OF ok] SetShares_children_keys [OF ok] by (simp only: ev)
  qed
  have early: "filter is_teardown (takeWhile (\<lambda>x. x \<noteq> mu_Unlock) (snd (SetShares e s sharesMap))) = []"
  proof (cases "AllowShareAs e \<and> isl (os_Executable e)")
    case True
    then show ?thesis by (auto simp: SetShares_def isl_def)
  next
    case False
    have "filter is_teardown ?go = []" by (rule no_teardown_Go_runLoop)
    then show ?thesis using inst [OF False] by simp
  qed
  have "takeWhile (\<lambda>x. x \<noteq> mu_Unlock) (snd (Close e s)) = [mu_Lock, Store_userServers, Store_children]"
    by (simp add: Close_def Let_def)
  moreover have "dropWhile (\<lambda>x. x \<noteq> mu_Unlock) (snd (Close e s)) = mu_Unlock # ?down"
    by (simp add: Close_def Let_def)
  moreover have "userServers (fst (Close e s)) = [] \<and> children (fst (Close e s)) = []
      \<and> fs_shares (fst (Close e s)) = fs_shares s"
    by (simp add: Close_def Let_def)
  ultimately show ?thesis using inst early by blast
qed

theorem teardown_after_install_witness:
  "\<not> (AllowShareAs example_sys \<and> isl (os_Executable example_sys))
   \<and> SetShares example_sys example_fs [(''A'', share_A)] =
       (example_fs\<lparr>fs_shares := [(''A'', share_A)],
                   children := [(''A'', \<lparr>child_Name = ''A'', BaseURL = ''http://41/A''\<rparr>)],
                   userServers := [(''alice'', example_userServer)]\<rparr>,
        [Go_runLoop ''alice'', mu_Lock, Store_shares, Store_children, Store_userServers, mu_Unlock,
         Close_userServer ''alice'', CloseIdleConnections ''A'', CloseIdleConnections ''B''])
   \<and> takeWhile (\<lambda>x. x \<noteq> mu_Unlock) (snd (SetShares example_sys example_fs [(''A'', share_A)]))
       = [Go_runLoop ''alice'', mu_Lock, Store_shares, Store_children, Store_userServers]
   \<and> snd (Close example_sys example_fs) =
        [mu_Lock, Store_userServers, Store_children, mu_Unlock,
         Close_userServer ''alice'', CloseIdleConnections ''A'', CloseIdleConnections ''B'']"
  using teardown_after_install [of example_sys example_fs "[(''A'', share_A)]"]
  by (simp add: example_fs_eq example_sys_def SetShares_def SetShares_group_def Let_def
      share_A_def share_B_def buildChild_def stopUserServers_def userServer_Close_def
      closeChildren_def Close_def example_userServer_def)

text \<open>
  C6 as stated fails for \<^verbatim>\<open>Close\<close>: it stores no map of shares; the shares installed
  before are still there afterwards.
\<close>

theorem Close_keeps_shares_counterexample:
  "fs_shares example_fs = [(''A'', share_A), (''B'', share_B)]
   \<and> fs_shares (fst (Close example_sys example_fs)) = [(''A'', share_A), (''B'', share_B)]
   \<and> Store_shares \<notin> set (snd (Close example_sys example_fs))"
  by (simp add: example_fs_eq Close_def Let_def stopUserServers_def userServer_Close_def
      closeChildren_def)

text \<open>
  C7, as amended. When privilege separation is enabled and the path of the executable
  is found, the map of user servers that \<^verbatim>\<open>SetShares\<close> installs has exactly the owners of
  the shares as keys, each once; one goroutine is started for each; the user server of
  an owner has that owner as user name, the executable, and the owner's shares; and a
  file server it starts gets \<^verbatim>\<open>serve-tailfs\<close> followed by the name and path of each of
  these shares as its last arguments.
\<close>

theorem SetShares_one_userServer_per_owner:
  assumes "AllowShareAs e" and "os_Executable e = Inr exe"
  shows "distinct (map fst (userServers (fst (SetShares e s sharesMap))))
       \<and> fst ` set (userServers (fst (SetShares e s sharesMap))) = As ` snd ` set sharesMap
       \<and> takeWhile (\<lambda>x. x \<noteq> mu_Lock) (snd (SetShares e s sharesMap))
           = map (\<lambda>(u, p). Go_runLoop u) (userServers (fst (SetShares e s sharesMap)))
       \<and> (\<forall>(u, p) \<in> set (userServers (fst (SetShares e s sharesMap))).
            username p = u \<and> executable p = exe
            \<and> shares p = owned_by u (map snd sharesMap)
            \<and> (\<forall>pr c. cmd_Start c \<in> set (fst (snd (run pr p))) \<longrightarrow>
                 (\<exists>pre. cmd_args c = pre @ ''serve-tailfs'' #
                    concat (map (\<lambda>sh. [Name sh, Path sh]) (owned_by u (map snd sharesMap))))))"
proof -
  let ?us = "fold (SetShares_group exe) (map snd sharesMap) []"
  have us: "userServers (fst (SetShares e s sharesMap)) = ?us"
    using assms by (simp add: SetShares_def Let_def)
  have ev: "snd (SetShares e s sharesMap) =
      map (\<lambda>(u, p). Go_runLoop u) ?us
      @ [mu_Lock, Store_shares, Store_children, Store_userServers, mu_Unlock]
      @ stopUserServers e (userServers s) @ closeChildren (children s)"
    using assms by (simp add: SetShares_def Let_def)
  have g: "grouped exe (map snd sharesMap) ?us" by (rule grouped_SetShares)
  have "distinct (map fst ?us)" using g by (simp add: grouped_def)
  moreover have "fst ` set ?us = As ` snd ` set sharesMap"
    using grouped_keys [OF g] by simp
  moreover have "takeWhile (\<lambda>x. x \<noteq> mu_Lock) (snd (SetShares e s sharesMap))
           = map (\<lambda>(u, p). Go_runLoop u) ?us"
    unfolding ev by (subst takeWhile_append2) (auto simp: split_def)
  moreover have "username p = u \<and> executable p = exe
            \<and> shares p = owned_by u (map snd sharesMap)
            \<and> (\<forall>pr c. cmd_Start c \<in> set (fst (snd (run pr p))) \<longrightarrow>
                 (\<exists>pre. cmd_args c = pre @ ''serve-tailfs'' #
                    concat (map (\<lambda>sh. [Name sh, Path sh]) (owned_by u (map snd sharesMap)))))"
    if "(u, p) \<in> set ?us" for u p
  proof -
    have p: "p = (new_userServer exe u)\<lparr>shares := owned_by u (map snd sharesMap)\<rparr>"
      using g that by (rule grouped_entry)
    have "\<exists>pre. cmd_args c = pre @ ''serve-tailfs'' #
                    concat (map (\<lambda>sh. [Name sh, Path sh]) (owned_by u (map snd sharesMap)))"
      if "cmd_Start c \<in> set (fst (snd (run pr p)))" for pr c
      using run_Start_args [OF that] by (auto simp: run_args_def p)
    then show ?thesis by (simp add: p new_userServer_def)
  qed
  ultimately show ?thesis unfolding us by blast
qed

theorem SetShares_one_userServer_per_owner_witness:
  "AllowShareAs example_sys \<and> os_Executable example_sys = Inr ''/usr/sbin/tailscaled''
   \<and> userServers (fst (SetShares example_sys empty_fs [(''A'', share_A), (''B'', share_B)]))
       = [(''alice'', \<lparr>shares = [share_A, share_B], username = ''alice'',
             executable = ''/usr/sbin/tailscaled'', cmd = None, addr = [], closed = False\<rparr>)]
   \<and> owned_by ''alice'' [share_A, share_B] = [share_A, share_B]
   \<and> fst (snd (run (example_proc\<lparr>canSudo_ok := True\<rparr>)
        \<lparr>shares = [share_A, share_B], username = ''alice'',
         executable = ''/usr/sbin/tailscaled'', cmd = None, addr = [], closed = False\<rparr>))
      = [Run_probe \<lparr>cmd_name = ''sudo'',
                    cmd_args = [''-n'', ''-u'', ''alice'', ''/usr/sbin/tailscaled'', ''-h'']\<rparr>,
         Logf (StartingAsUser ''alice''),
         cmd_Start \<lparr>cmd_name = ''sudo'',
                    cmd_args = [''-n'', ''-u'', ''alice'', ''/usr/sbin/tailscaled'',
                                ''serve-tailfs'', ''A'', ''/x'', ''B'', ''/y'']\<rparr>]"
  using SetShares_one_userServer_per_owner [of example_sys "''/usr/sbin/tailscaled''" empty_fs
      "[(''A'', share_A), (''B'', share_B)]"]
  by (simp add: example_sys_def empty_fs_def SetShares_def SetShares_group_def Let_def
      share_A_def share_B_def owned_by_def run_def canSudo_def run_cmd_def run_args_def
      example_proc_def first_Scan_def)

text \<open>
  C7 as stated fails when the path of the executable is not found: no user server is
  created for alice.
\<close>

theorem SetShares_no_userServer_counterexample:
  "AllowShareAs (example_sys\<lparr>os_Executable := Inl ''no such file''\<rparr>)
   \<and> As ` snd ` set [(''A'', share_A), (''B'', share_B)] = {''alice''}
   \<and> userServers (fst (SetShares (example_sys\<lparr>os_Executable := Inl ''no such file''\<rparr>) empty_fs
        [(''A'', share_A), (''B'', share_B)])) = []"
  by (simp add: example_sys_def empty_fs_def SetShares_def share_A_def share_B_def)




text \<open>
  C9. For a known share with a non-empty address: if \<^verbatim>\<open>netip.ParseAddrPort\<close> accepts the
  address, the only attempt is \<^verbatim>\<open>net.Dial("tcp", addr)\<close>, otherwise the only attempt is
  \<^verbatim>\<open>safesocket.Connect(addr)\<close>, and the result is that of the attempt. When privilege
  separation is disabled the address is \<open>fileServerAddr\<close> for every share, the dial does
  not depend on the map of user servers, and an attempt it makes goes to that address.
\<close>

theorem dial_classifies_address:
  "(\<forall>host port shareName share. SplitHostPort e shareAddr = Inr (host, port)
        \<and> hex_DecodeString e host = Inr shareName
        \<and> map_of (fs_shares s) shareName = Some share
        \<and> dial_addr e s share \<noteq> [] \<longrightarrow>
      (if ParseAddrPort_ok e (dial_addr e s share)
       then dial e s shareAddr = (connect_result (net_Dial_tcp e (dial_addr e s share)),
                                  [Dial_tcp (dial_addr e s share)])
       else dial e s shareAddr = (connect_result (safesocket_Connect e (dial_addr e s share)),
                                  [Connect_safesocket (dial_addr e s share)])))
   \<and> (\<not> AllowShareAs e \<longrightarrow>
        (\<forall>share. dial_addr e s share = fileServerAddr s)
        \<and> (\<forall>us. dial e (s\<lparr>userServers := us\<rparr>) shareAddr = dial e s shareAddr)
        \<and> (\<forall>a \<in> set (snd (dial e s shareAddr)).
              a = Dial_tcp (fileServerAddr s) \<or> a = Connect_safesocket (fileServerAddr s)))"
  by (auto simp: dial_def Let_def dial_addr_def split: sum.splits option.splits)

theorem dial_classifies_address_witness:
  "SplitHostPort example_sys ''41:80'' = Inr (''41'', ''80'')
   \<and> hex_DecodeString example_sys ''41'' = Inr ''A''
   \<and> map_of (fs_shares (serving_fs ''127.0.0.1:8080'')) ''A'' = Some share_A
   \<and> dial_addr example_sys (serving_fs ''127.0.0.1:8080'') share_A = ''127.0.0.1:8080''
   \<and> ParseAddrPort_ok example_sys ''127.0.0.1:8080''
   \<and> dial example_sys (serving_fs ''127.0.0.1:8080'') ''41:80'' = (Inr 1, [Dial_tcp ''127.0.0.1:8080''])
   \<and> \<not> ParseAddrPort_ok example_sys ''/run/tailfs.sock''
   \<and> dial example_sys (serving_fs ''/run/tailfs.sock'') ''41:80''
       = (Inl (ConnectFailed ''connection refused''), [Connect_safesocket ''/run/tailfs.sock''])
   \<and> \<not> AllowShareAs (example_sys\<lparr>AllowShareAs := False\<rparr>)
   \<and> dial (example_sys\<lparr>AllowShareAs := False\<rparr>) (serving_fs ''127.0.0.1:8080'') ''41:80''
       = (Inl (ConnectFailed ''connection refused''), [Connect_safesocket ''127.0.0.1:9000''])
   \<and> dial (example_sys\<lparr>AllowShareAs := False\<rparr>) ((serving_fs ''127.0.0.1:8080'')\<lparr>userServers := []\<rparr>) ''41:80''
       = dial (example_sys\<lparr>AllowShareAs := False\<rparr>) (serving_fs ''127.0.0.1:8080'') ''41:80''"
  using dial_classifies_address [of example_sys "''41:80''" "serving_fs ''127.0.0.1:8080''"]
    dial_classifies_address [of example_sys "''41:80''" "serving_fs ''/run/tailfs.sock''"]
    dial_classifies_address [of "example_sys\<lparr>AllowShareAs := False\<rparr>" "''41:80''"
      "serving_fs ''127.0.0.1:8080''"]
  by (simp add: serving_fs_def example_fs_eq example_sys_def dial_def dial_addr_def share_A_def
      example_userServer_def connect_result_def Let_def)

text \<open>
  C10. When privilege separation is enabled and the path of the executable is not
  found, \<^verbatim>\<open>SetShares\<close> returns the file system as it was; its only event is the log line,
  so nothing is stopped or closed.
\<close>

theorem SetShares_without_executable:
  assumes "AllowShareAs e" and "os_Executable e = Inl err"
  shows "SetShares e s sharesMap = (s, [Logf (CantFindExecutable err)])
       \<and> fs_shares (fst (SetShares e s sharesMap)) = fs_shares s
       \<and> children (fst (SetShares e s sharesMap)) = children s
       \<and> userServers (fst (SetShares e s sharesMap)) = userServers s
       \<and> filter is_teardown (snd (SetShares e s sharesMap)) = []"
  using assms by (simp add: SetShares_def)

theorem SetShares_without_executable_witness:
  "AllowShareAs (example_sys\<lparr>os_Executable := Inl ''no such file''\<rparr>)
   \<and> os_Executable (example_sys\<lparr>os_Executable := Inl ''no such file''\<rparr>) = Inl ''no such file''
   \<and> SetShares (example_sys\<lparr>os_Executable := Inl ''no such file''\<rparr>) example_fs [(''B'', share_B)]
       = (example_fs, [Logf (CantFindExecutable ''no such file'')])"
  using SetShares_without_executable [of "example_sys\<lparr>os_Executable := Inl ''no such file''\<rparr>"
      "''no such file''" example_fs "[(''B'', share_B)]"]
  by (simp add: example_sys_def)

end
